theory Spec2Isabelle
  imports Main "HOL-Library.Sublist"
begin

section \<open>The Uncover plugin: discovery of tagged notes and synthesis of their relationships\<close>

text \<open>
  The development embeds \<^verbatim>\<open>src/main.ts\<close> (class \<^verbatim>\<open>UncoverPlugin\<close>): the editor
  command, \<^verbatim>\<open>getNotesWithTag\<close> and \<^verbatim>\<open>generateContent\<close>, and the earlier variant of
  the same class in \<^verbatim>\<open>src/unnamed/part_001\<close>, whose \<^verbatim>\<open>getNotesWithTag\<close> is
  synchronous. (The class in \<^verbatim>\<open>src/unnamed/part_000\<close> has the loop of \<^verbatim>\<open>getNotesWithTag\<close>
  and the body of \<^verbatim>\<open>generateContent\<close> of \<^verbatim>\<open>main.ts\<close>, with the key taken from the
  plugin's settings and the command refusing to start without it.) JavaScript strings are modelled as \<^typ>\<open>string\<close>; every string operation
  the plugin uses (prefix test, substring search, slicing, concatenation) acts on the
  sequence of code units only. Exceptions and rejected promises are values of type
  \<open>error\<close> on the left of a sum. The calls that leave the plugin (a read of a note,
  a chat-completion request, an insertion at the cursor) are recorded, in the order they are
  issued, in a list of events returned beside the result. Output to the console is not part
  of the model.
\<close>

subsection \<open>String and array operations of the JavaScript library\<close>

text \<open>\<^verbatim>\<open>s.startsWith(searchString)\<close>: the code units of \<open>s\<close> from position 0 on are those
  of \<open>searchString\<close>.\<close>

definition startsWith :: "string \<Rightarrow> string \<Rightarrow> bool" where
  "startsWith s searchString = (take (length searchString) s = searchString)"

text \<open>\<^verbatim>\<open>s.includes(searchString)\<close>: \<open>searchString\<close> occurs at some position of \<open>s\<close>,
  tried from the left.\<close>

fun includes_str :: "string \<Rightarrow> string \<Rightarrow> bool" where
  "includes_str [] searchString = (searchString = [])"
| "includes_str (c # cs) searchString =
     (if startsWith (c # cs) searchString then True else includes_str cs searchString)"

text \<open>\<^verbatim>\<open>s.lastIndexOf(c)\<close> for a one-character search string: the greatest index holding
  \<open>c\<close>, or \<open>-1\<close>.\<close>

fun lastIndexOf :: "string \<Rightarrow> char \<Rightarrow> int" where
  "lastIndexOf [] c = - 1"
| "lastIndexOf (x # xs) c =
     (let r = lastIndexOf xs c
      in if 0 \<le> r then r + 1 else if x = c then 0 else - 1)"

text \<open>\<^verbatim>\<open>s.substring(indexStart, indexEnd)\<close>: both indices are clamped to \<open>0..length s\<close>
  and swapped when the first is the greater.\<close>

definition substring :: "string \<Rightarrow> int \<Rightarrow> int \<Rightarrow> string" where
  "substring s indexStart indexEnd =
     (let len = int (length s);
          finalStart = min (max indexStart 0) len;
          finalEnd = min (max indexEnd 0) len;
          lo = min finalStart finalEnd;
          hi = max finalStart finalEnd
      in take (nat (hi - lo)) (drop (nat lo) s))"

text \<open>\<^verbatim>\<open>xs.join(sep)\<close>: the elements separated by \<open>sep\<close>; an element that is
  \<^verbatim>\<open>undefined\<close> (here \<open>None\<close>) is rendered as the empty string.\<close>

fun element_text :: "string option \<Rightarrow> string" where
  "element_text None = []"
| "element_text (Some s) = s"

fun join :: "string option list \<Rightarrow> string \<Rightarrow> string" where
  "join [] sep = []"
| "join [x] sep = element_text x"
| "join (x # y # ys) sep = element_text x @ sep @ join (y # ys) sep"

subsection \<open>The collaborators: vault, completion provider, editor\<close>

datatype error = ReadError string | TypeError string | ProviderError string

text \<open>What \<^verbatim>\<open>getAbstractFileByPath\<close> can return: a note (\<^verbatim>\<open>TFile\<close>) or a folder, each
  with its path; \<^verbatim>\<open>null\<close> is \<open>None\<close>.\<close>

datatype abstract_file = TFile (path: string) | TFolder (path: string)

text \<open>The vault. \<open>getFiles\<close> lists the notes (each \<^verbatim>\<open>TFile\<close> by its path) in the
  vault's enumeration order; \<open>read\<close> gives the outcome of \<^verbatim>\<open>vault.read(file)\<close> for
  the file with that path: its content, or the error the promise is rejected with.\<close>

record vault =
  getFiles :: "string list"
  getAbstractFileByPath :: "string \<Rightarrow> abstract_file option"
  read :: "string \<Rightarrow> error + string"

text \<open>The chat-completion request and response, as far as the plugin builds and reads
  them. A message of the request is a pair of role and content.\<close>

record request =
  model :: string
  messages :: "(string \<times> string) list"

datatype message = Message (content: "string option")

datatype choice = Choice (message: "message option")

datatype response = Response (choices: "choice list")

text \<open>The options the \<^verbatim>\<open>OpenAI\<close> client is constructed with.\<close>

record client =
  organization :: string
  project :: string
  apiKey :: string

datatype event =
  VaultRead string
  | ChatCompletion client request
  | ReplaceSelection string

text \<open>The plugin in its environment: the vault, the three constants read from the process
  environment when the module is loaded (\<^verbatim>\<open>process.env.X || ''\<close>, so a missing variable
  is the empty string), and the provider behind \<^verbatim>\<open>openai.chat.completions.create\<close>,
  which answers with a response or throws.\<close>

record plugin =
  vault :: vault
  ORG_ID :: string
  PROJECT_ID :: string
  OPENAI_API_KEY :: string
  create :: "client \<Rightarrow> request \<Rightarrow> error + response"

subsection \<open>Discovery: \<^verbatim>\<open>getNotesWithTag\<close> of \<^verbatim>\<open>main.ts\<close>\<close>

text \<open>The body of the \<^verbatim>\<open>try\<close> block for one file, given the outcome of the awaited
  read: a rejected read leaves the block with its error; otherwise the path is pushed when
  the content includes the tag.\<close>

definition tryBlock :: "string \<Rightarrow> string \<Rightarrow> string list \<Rightarrow> error + string \<Rightarrow> error + string list" where
  "tryBlock tag file notes outcome =
     (case outcome of
        Inl e \<Rightarrow> Inl e
      | Inr content' \<Rightarrow> if includes_str content' tag then Inr (notes @ [file]) else Inr notes)"

text \<open>\<^verbatim>\<open>try { ... } catch (error) { console.error(...) }\<close>: the handler only logs, and
  the loop goes on with the accumulator as it was.\<close>

definition tryCatch :: "string \<Rightarrow> string \<Rightarrow> string list \<Rightarrow> error + string \<Rightarrow> error + string list" where
  "tryCatch tag file notes outcome =
     (case tryBlock tag file notes outcome of
        Inl e \<Rightarrow> Inr notes
      | Inr notes' \<Rightarrow> Inr notes')"

text \<open>The \<^verbatim>\<open>for (const file of files)\<close> loop, with the accumulator \<open>notes\<close> and the
  events so far. Each read is awaited before the next file is looked at.\<close>

fun forFiles ::
  "vault \<Rightarrow> string \<Rightarrow> string \<Rightarrow> string list \<Rightarrow> string list \<Rightarrow> event list
    \<Rightarrow> (error + string list) \<times> event list" where
  "forFiles v tag folderPath [] notes tr = (Inr notes, tr)"
| "forFiles v tag folderPath (file # files) notes tr =
     (if startsWith file folderPath then
        (case tryCatch tag file notes (read v file) of
           Inl e \<Rightarrow> (Inl e, tr @ [VaultRead file])
         | Inr notes' \<Rightarrow> forFiles v tag folderPath files notes' (tr @ [VaultRead file]))
      else forFiles v tag folderPath files notes tr)"

definition getNotesWithTag :: "plugin \<Rightarrow> string \<Rightarrow> string \<Rightarrow> (error + string list) \<times> event list" where
  "getNotesWithTag p tag folderPath =
     forFiles (vault p) tag folderPath (getFiles (vault p)) [] []"

text \<open>The test a note passes to be returned: its path starts with the folder path, its read
  succeeds and the content read includes the tag.\<close>

definition matches :: "vault \<Rightarrow> string \<Rightarrow> string \<Rightarrow> string \<Rightarrow> bool" where
  "matches v tag folderPath file =
     (startsWith file folderPath \<and>
      (case read v file of Inl e \<Rightarrow> False | Inr content' \<Rightarrow> includes_str content' tag))"

subsection \<open>Batches of promises: \<^verbatim>\<open>Promise.all\<close>\<close>

text \<open>The promises of a batch settle in an order the program does not control. The order is
  a parameter \<open>sched\<close>, any list of indices: the promises it names settle first, in its
  order, and the others after them. Every order of \<open>n\<close> promises is obtained from some
  \<open>sched\<close> (lemma \<open>completionOrder_perm\<close>).\<close>

definition completionOrder :: "nat \<Rightarrow> nat list \<Rightarrow> nat list" where
  "completionOrder n sched =
     filter (\<lambda>i. i < n) (remdups sched) @ filter (\<lambda>i. i \<notin> set sched) [0..<n]"

text \<open>\<^verbatim>\<open>Promise.all\<close> keeps one slot per promise, \<^verbatim>\<open>undefined\<close> at first. When promise
  \<open>i\<close> is fulfilled its value is stored in slot \<open>i\<close>; the first promise to be rejected
  rejects the whole batch with its reason. When every promise has been fulfilled the batch
  is fulfilled with the slots.\<close>

fun settleAll :: "(error + 'a) list \<Rightarrow> nat list \<Rightarrow> 'a option list \<Rightarrow> error + 'a option list" where
  "settleAll outcomes [] slots = Inr slots"
| "settleAll outcomes (i # order) slots =
     (if i < length outcomes then
        (case outcomes ! i of
           Inl reason \<Rightarrow> Inl reason
         | Inr x \<Rightarrow> settleAll outcomes order (slots[i := Some x]))
      else settleAll outcomes order slots)"

definition promiseAll :: "(error + 'a) list \<Rightarrow> nat list \<Rightarrow> error + 'a option list" where
  "promiseAll outcomes sched =
     settleAll outcomes (completionOrder (length outcomes) sched)
       (replicate (length outcomes) None)"

subsection \<open>Synthesis: \<^verbatim>\<open>generateContent\<close> of \<^verbatim>\<open>main.ts\<close>\<close>

text \<open>The callback mapped over the paths. It runs at once for each path, in the order of
  the list: the path is resolved, and a read is issued when it resolves to a note. The
  result is the outcome of the promise it returns, with the read it issued.\<close>

definition readNote :: "vault \<Rightarrow> string \<Rightarrow> (error + string) \<times> event list" where
  "readNote v notePath =
     (case getAbstractFileByPath v notePath of
        None \<Rightarrow> (Inr [], [])
      | Some (TFolder folder) \<Rightarrow> (Inr [], [])
      | Some (TFile filePath) \<Rightarrow> (read v filePath, [VaultRead filePath]))"

definition buildPrompt :: "string option list \<Rightarrow> string" where
  "buildPrompt notesContent =
     ''Uncover relationships between the following notes:\<newline>'' @ join notesContent ''\<newline>''"

text \<open>\<^verbatim>\<open>response.choices[0]?.message?.content\<close>\<close>

definition messageContent :: "response \<Rightarrow> string option" where
  "messageContent r =
     (case choices r of
        [] \<Rightarrow> None
      | c # cs \<Rightarrow> (case message c of None \<Rightarrow> None | Some m \<Rightarrow> content m))"

text \<open>The construction of the client and the \<^verbatim>\<open>try\<close>/\<^verbatim>\<open>catch\<close> around the
  request: the value \<^verbatim>\<open>generateContent\<close> returns from there, and the request issued.\<close>

definition requestCompletion :: "plugin \<Rightarrow> string \<Rightarrow> string \<times> event list" where
  "requestCompletion p prompt =
     (let openai = \<lparr>organization = ORG_ID p, project = PROJECT_ID p, apiKey = OPENAI_API_KEY p\<rparr>;
          req = \<lparr>model = ''gpt-4o-mini'', messages = [(''user'', prompt)]\<rparr>
      in ((case create p openai req of
             Inl e \<Rightarrow> ''Error generating content. Please check the console for details.''
           | Inr r \<Rightarrow>
               (case messageContent r of
                  None \<Rightarrow> ''Error generating content. No response content.''
                | Some answer \<Rightarrow>
                    if answer = [] then ''Error generating content. No response content.''
                    else answer)),
          [ChatCompletion openai req]))"

definition generateContent :: "plugin \<Rightarrow> nat list \<Rightarrow> string list \<Rightarrow> (error + string) \<times> event list" where
  "generateContent p sched paths =
     (if OPENAI_API_KEY p = [] then
        (Inr ''API Key is not set. Please configure it in the .env file.'', [])
      else
        (let started = map (readNote (vault p)) paths;
             reads = concat (map snd started)
         in case promiseAll (map fst started) sched of
              Inl e \<Rightarrow> (Inl e, reads)
            | Inr notesContent \<Rightarrow>
                (case requestCompletion p (buildPrompt notesContent) of
                   (answer, tr) \<Rightarrow> (Inr answer, reads @ tr))))"

subsection \<open>The command: \<^verbatim>\<open>editorCallback\<close> of \<^verbatim>\<open>main.ts\<close>\<close>

definition folderOf :: "string \<Rightarrow> string" where
  "folderOf currentFilePath =
     substring currentFilePath 0 (lastIndexOf currentFilePath CHR ''/'')"

text \<open>The argument \<open>viewFile\<close> is \<^verbatim>\<open>view.file?.path\<close>: \<open>None\<close> when the view has no
  file. The vault is the same for the whole run of the command.\<close>

definition editorCallback :: "plugin \<Rightarrow> nat list \<Rightarrow> string option \<Rightarrow> (error + unit) \<times> event list" where
  "editorCallback p sched viewFile =
     (case viewFile of
        None \<Rightarrow> (Inr (), [ReplaceSelection ''Could not determine the current file path.''])
      | Some currentFilePath \<Rightarrow>
          if currentFilePath = [] then
            (Inr (), [ReplaceSelection ''Could not determine the current file path.''])
          else
            (case getNotesWithTag p ''&uncover'' (folderOf currentFilePath) of
               (Inl e, tr) \<Rightarrow> (Inl e, tr)
             | (Inr relatedNotes, tr) \<Rightarrow>
                 if length relatedNotes = 0 then
                   (Inr (), tr @ [ReplaceSelection ''No related notes with the &uncover tag found.''])
                 else
                   (case generateContent p sched relatedNotes of
                      (Inl e, tr') \<Rightarrow> (Inl e, tr @ tr')
                    | (Inr relationships, tr') \<Rightarrow>
                        (Inr (),
                         tr @ tr' @
                         [ReplaceSelection
                            (''\<newline>## Relationships Uncovered:\<newline>'' @ relationships)]))))"

subsection \<open>The variant of \<^verbatim>\<open>src/unnamed/part_001\<close>\<close>

text \<open>There \<^verbatim>\<open>getNotesWithTag\<close> is not \<^verbatim>\<open>async\<close>. The callback of \<^verbatim>\<open>forEach\<close>
  issues the read of a file under the folder and registers a continuation on its promise
  with \<^verbatim>\<open>then\<close>; it does not touch \<open>notes\<close>. A continuation runs only after the code
  that is running has finished, so none has run when the function returns. The state of
  the loop is the array \<open>notes\<close>, the files whose continuation is registered, and the
  events.\<close>

fun forEachFile ::
  "string \<Rightarrow> string list \<Rightarrow> string list \<Rightarrow> string list \<Rightarrow> event list
    \<Rightarrow> string list \<times> string list \<times> event list" where
  "forEachFile folderPath [] notes pending tr = (notes, pending, tr)"
| "forEachFile folderPath (file # files) notes pending tr =
     (if startsWith file folderPath then
        forEachFile folderPath files notes (pending @ [file]) (tr @ [VaultRead file])
      else forEachFile folderPath files notes pending tr)"

text \<open>The result: the content of the returned array at the time of the return, the files
  with a continuation still to run, and the reads issued.\<close>

definition getNotesWithTag_part_001 ::
  "plugin \<Rightarrow> string \<Rightarrow> string \<Rightarrow> string list \<times> string list \<times> event list" where
  "getNotesWithTag_part_001 p tag folderPath =
     forEachFile folderPath (getFiles (vault p)) [] [] []"

text \<open>What happens to the array afterwards: as the reads complete, the continuation of a
  fulfilled read pushes the path when the content includes the tag; a rejected read has no
  handler and pushes nothing.\<close>

fun runContinuations ::
  "vault \<Rightarrow> string \<Rightarrow> string list \<Rightarrow> nat list \<Rightarrow> string list \<Rightarrow> string list" where
  "runContinuations v tag pending [] notes = notes"
| "runContinuations v tag pending (i # order) notes =
     (if i < length pending then
        (case read v (pending ! i) of
           Inl e \<Rightarrow> runContinuations v tag pending order notes
         | Inr content' \<Rightarrow>
             runContinuations v tag pending order
               (if includes_str content' tag then notes @ [pending ! i] else notes))
      else runContinuations v tag pending order notes)"

definition arrayAfterReads ::
  "vault \<Rightarrow> string \<Rightarrow> string list \<Rightarrow> nat list \<Rightarrow> string list \<Rightarrow> string list" where
  "arrayAfterReads v tag pending sched notes =
     runContinuations v tag pending (completionOrder (length pending) sched) notes"

text \<open>\<^verbatim>\<open>generateContent\<close> of the variant passes what \<^verbatim>\<open>getAbstractFileByPath\<close> returns
  to \<^verbatim>\<open>vault.read\<close> unchecked. A read of \<^verbatim>\<open>null\<close> or of a folder is taken to give a
  rejected promise. The client is constructed without a key and takes it from the same
  variable of the environment. The first choice and its message are dereferenced unguarded
  inside the \<^verbatim>\<open>try\<close> block, and a \<^verbatim>\<open>null\<close> content is returned as it is.\<close>

definition readNote_part_001 :: "vault \<Rightarrow> string \<Rightarrow> (error + string) \<times> event list" where
  "readNote_part_001 v notePath =
     (case getAbstractFileByPath v notePath of
        None \<Rightarrow> (Inl (TypeError ''read of null''), [])
      | Some (TFolder folder) \<Rightarrow> (Inl (ReadError folder), [VaultRead folder])
      | Some (TFile filePath) \<Rightarrow> (read v filePath, [VaultRead filePath]))"

definition requestCompletion_part_001 :: "plugin \<Rightarrow> string \<Rightarrow> string option \<times> event list" where
  "requestCompletion_part_001 p prompt =
     (let openai = \<lparr>organization = ORG_ID p, project = PROJECT_ID p, apiKey = OPENAI_API_KEY p\<rparr>;
          req = \<lparr>model = ''gpt-4o-mini'', messages = [(''user'', prompt)]\<rparr>
      in ((case create p openai req of
             Inl e \<Rightarrow> Some ''Error generating content. Please check the console for details.''
           | Inr r \<Rightarrow>
               (case choices r of
                  [] \<Rightarrow> Some ''Error generating content. Please check the console for details.''
                | c # cs \<Rightarrow>
                    (case message c of
                       None \<Rightarrow> Some ''Error generating content. Please check the console for details.''
                     | Some m \<Rightarrow> content m))),
          [ChatCompletion openai req]))"

definition generateContent_part_001 ::
  "plugin \<Rightarrow> nat list \<Rightarrow> string list \<Rightarrow> (error + string option) \<times> event list" where
  "generateContent_part_001 p sched paths =
     (if OPENAI_API_KEY p = [] then
        (Inr (Some ''API Key is not set. Please configure it in the .env file.''), [])
      else
        (let started = map (readNote_part_001 (vault p)) paths;
             reads = concat (map snd started)
         in case promiseAll (map fst started) sched of
              Inl e \<Rightarrow> (Inl e, reads)
            | Inr notesContent \<Rightarrow>
                (case requestCompletion_part_001 p (buildPrompt notesContent) of
                   (answer, tr) \<Rightarrow> (Inr answer, reads @ tr))))"

text \<open>A value interpolated into a template literal: \<^verbatim>\<open>null\<close> is rendered as the word.\<close>

fun interpolate :: "string option \<Rightarrow> string" where
  "interpolate None = ''null''"
| "interpolate (Some s) = s"

text \<open>The command of the variant reads \<^verbatim>\<open>view.file.path\<close> unguarded, and tests the
  length of the array as soon as \<^verbatim>\<open>getNotesWithTag\<close> has returned it.\<close>

definition editorCallback_part_001 ::
  "plugin \<Rightarrow> nat list \<Rightarrow> string option \<Rightarrow> (error + unit) \<times> event list" where
  "editorCallback_part_001 p sched viewFile =
     (case viewFile of
        None \<Rightarrow> (Inl (TypeError ''view.file is null''), [])
      | Some currentFilePath \<Rightarrow>
          (case getNotesWithTag_part_001 p ''#uncover'' (folderOf currentFilePath) of
             (relatedNotes, pending, tr) \<Rightarrow>
               if length relatedNotes = 0 then
                 (Inr (), tr @ [ReplaceSelection ''No related notes with the #uncover tag found.''])
               else
                 (case generateContent_part_001 p sched relatedNotes of
                    (Inl e, tr') \<Rightarrow> (Inl e, tr @ tr')
                  | (Inr relationships, tr') \<Rightarrow>
                      (Inr (),
                       tr @ tr' @
                       [ReplaceSelection
                          (''\<newline>## Relationships Uncovered:\<newline>'' @ interpolate relationships)]))))"

subsection \<open>A concrete vault and plugin\<close>

text \<open>Three notes and the current note under \<^verbatim>\<open>/proj\<close>, one of them unreadable, a
  note in a second folder and an untagged note in a third; a provider that answers every
  request with one choice.\<close>

definition scenarioVault :: vault where
  "scenarioVault =
     \<lparr>getFiles =
        [''/proj/note1.md'', ''/proj/note2.md'', ''/other/note3.md'', ''/proj/locked.md'',
         ''/misc/plain.md'', ''/proj/current.md''],
      getAbstractFileByPath =
        (\<lambda>q. if q \<in> set [''/proj/note1.md'', ''/proj/note2.md'', ''/other/note3.md'',
                             ''/proj/locked.md'', ''/misc/plain.md'', ''/proj/current.md'']
             then Some (TFile q)
             else if q = ''/proj'' then Some (TFolder q) else None),
      read =
        (\<lambda>q. if q = ''/proj/note1.md'' then Inr ''alpha &uncover beta''
             else if q = ''/proj/note2.md'' then Inr ''&uncover''
             else if q = ''/other/note3.md'' then Inr ''&uncover''
             else if q = ''/misc/plain.md'' then Inr ''plain text''
             else if q = ''/proj/current.md'' then Inr ''draft &uncover''
             else Inl (ReadError q))\<rparr>"

definition scenario :: plugin where
  "scenario =
     \<lparr>vault = scenarioVault, ORG_ID = ''org'', PROJECT_ID = ''prj'', OPENAI_API_KEY = ''sk-test'',
      create = (\<lambda>c r. Inr (Response [Choice (Some (Message (Some ''A relates to B via X'')))]))\<rparr>"

section \<open>Properties\<close>

subsection \<open>The string operations\<close>

lemma startsWith_prefix: "startsWith s t = prefix t s"
  by (auto simp: startsWith_def prefix_def) (metis append_eq_conv_conj)

lemma includes_sublist: "includes_str s t = sublist t s"
proof (induction s)
  case Nil
  then show ?case by auto
next
  case (Cons c cs)
  then show ?case
    by (simp add: startsWith_prefix sublist_Cons_right)
qed

subsection \<open>Discovery\<close>

lemma tryCatch_eq:
  "tryCatch tag file notes outcome =
     Inr (case outcome of Inl e \<Rightarrow> notes
          | Inr content' \<Rightarrow> if includes_str content' tag then notes @ [file] else notes)"
  by (simp add: tryCatch_def tryBlock_def split: sum.splits)

lemma forFiles_result:
  "fst (forFiles v tag folderPath files acc tr) =
     Inr (acc @ filter (matches v tag folderPath) files)"
proof (induction files arbitrary: acc tr)
  case Nil
  then show ?case by simp
next
  case (Cons f fs)
  then show ?case
    by (simp add: tryCatch_eq matches_def split: sum.splits)
qed

subsection \<open>Batches of promises\<close>

lemma completionOrder_set: "set (completionOrder n sched) = {0..<n}"
  by (auto simp: completionOrder_def)

lemma completionOrder_distinct: "distinct (completionOrder n sched)"
  by (auto simp: completionOrder_def)

lemma completionOrder_perm:
  assumes "distinct order" "set order = {0..<n}"
  shows "completionOrder n order = order"
  using assms by (simp add: completionOrder_def distinct_remdups_id)

lemma settleAll_fulfilled:
  "length slots = length cs \<Longrightarrow>
   settleAll (map Inr cs) order slots =
     Inr (map (\<lambda>j. if j \<in> set order then Some (cs ! j) else slots ! j) [0..<length cs])"
proof (induction order arbitrary: slots)
  case Nil
  have "map ((!) slots) [0..<length slots] = slots"
    by (rule map_nth)
  with Nil show ?case by simp
next
  case (Cons i order)
  show ?case
  proof (cases "i < length cs")
    case True
    have "settleAll (map Inr cs) (i # order) slots =
            settleAll (map Inr cs) order (slots[i := Some (cs ! i)])"
      using True by simp
    also have "\<dots> = Inr (map (\<lambda>j. if j \<in> set order then Some (cs ! j)
                                  else slots[i := Some (cs ! i)] ! j) [0..<length cs])"
      using Cons.prems by (intro Cons.IH) simp
    also have "\<dots> = Inr (map (\<lambda>j. if j \<in> set (i # order) then Some (cs ! j) else slots ! j)
                           [0..<length cs])"
      using Cons.prems True by (auto simp: nth_list_update)
    finally show ?thesis .
  next
    case False
    then have "settleAll (map Inr cs) (i # order) slots = settleAll (map Inr cs) order slots"
      by simp
    also have "\<dots> = Inr (map (\<lambda>j. if j \<in> set order then Some (cs ! j) else slots ! j)
                           [0..<length cs])"
      using Cons.prems by (intro Cons.IH)
    also have "\<dots> = Inr (map (\<lambda>j. if j \<in> set (i # order) then Some (cs ! j) else slots ! j)
                           [0..<length cs])"
      using False by auto
    finally show ?thesis .
  qed
qed

lemma promiseAll_fulfilled: "promiseAll (map Inr cs) sched = Inr (map Some cs)"
proof -
  have "promiseAll (map Inr cs) sched =
          Inr (map (\<lambda>j. if j \<in> set (completionOrder (length cs) sched) then Some (cs ! j)
                         else replicate (length cs) None ! j) [0..<length cs])"
    by (simp add: promiseAll_def settleAll_fulfilled)
  also have "\<dots> = Inr (map (\<lambda>j. Some (cs ! j)) [0..<length cs])"
    by (simp add: completionOrder_set)
  also have "\<dots> = Inr (map Some cs)"
    by (simp add: map_nth flip: map_map [unfolded comp_def])
  finally show ?thesis .
qed

lemma settleAll_rejected:
  "settleAll outcomes order slots = Inl e \<Longrightarrow> \<exists>i < length outcomes. outcomes ! i = Inl e"
  by (induction order arbitrary: slots) (auto split: if_splits sum.splits)

lemma promiseAll_rejected:
  "promiseAll outcomes sched = Inl e \<Longrightarrow> Inl e \<in> set outcomes"
  unfolding promiseAll_def by (metis settleAll_rejected nth_mem)

lemma settleAll_some_rejected:
  "i \<in> set order \<Longrightarrow> i < length outcomes \<Longrightarrow> outcomes ! i = Inl e
    \<Longrightarrow> \<exists>e'. settleAll outcomes order slots = Inl e'"
  by (induction order arbitrary: slots) (auto split: sum.splits)

lemma promiseAll_some_rejected:
  assumes "Inl e \<in> set outcomes"
  shows "\<exists>e'. promiseAll outcomes sched = Inl e'"
proof -
  from assms obtain i where "i < length outcomes" "outcomes ! i = Inl e"
    by (auto simp: in_set_conv_nth)
  moreover have "i \<in> set (completionOrder (length outcomes) sched)"
    using \<open>i < length outcomes\<close> by (simp add: completionOrder_set)
  ultimately show ?thesis
    unfolding promiseAll_def by (rule settleAll_some_rejected[rotated])
qed

subsection \<open>The concrete vault and plugin, evaluated\<close>

lemma scenario_simps [simp]:
  "vault scenario = scenarioVault"
  "ORG_ID scenario = ''org''"
  "PROJECT_ID scenario = ''prj''"
  "OPENAI_API_KEY scenario = ''sk-test''"
  "create scenario c r = Inr (Response [Choice (Some (Message (Some ''A relates to B via X'')))])"
  by (simp_all add: scenario_def)

lemma scenarioVault_simps [simp]:
  "getFiles scenarioVault =
     [''/proj/note1.md'', ''/proj/note2.md'', ''/other/note3.md'', ''/proj/locked.md'',
      ''/misc/plain.md'', ''/proj/current.md'']"
  "getAbstractFileByPath scenarioVault ''/proj/note1.md'' = Some (TFile ''/proj/note1.md'')"
  "getAbstractFileByPath scenarioVault ''/proj/note2.md'' = Some (TFile ''/proj/note2.md'')"
  "getAbstractFileByPath scenarioVault ''/proj/locked.md'' = Some (TFile ''/proj/locked.md'')"
  "getAbstractFileByPath scenarioVault ''/proj/current.md'' = Some (TFile ''/proj/current.md'')"
  "getAbstractFileByPath scenarioVault ''/proj/gone.md'' = None"
  "getAbstractFileByPath scenarioVault ''/proj'' = Some (TFolder ''/proj'')"
  "read scenarioVault ''/proj/note1.md'' = Inr ''alpha &uncover beta''"
  "read scenarioVault ''/proj/note2.md'' = Inr ''&uncover''"
  "read scenarioVault ''/other/note3.md'' = Inr ''&uncover''"
  "read scenarioVault ''/proj/locked.md'' = Inl (ReadError ''/proj/locked.md'')"
  "read scenarioVault ''/misc/plain.md'' = Inr ''plain text''"
  "read scenarioVault ''/proj/current.md'' = Inr ''draft &uncover''"
  by (simp_all add: scenarioVault_def)

subsection \<open>Synthesis\<close>

lemma readNote_events:
  "snd (readNote v q) =
     (case getAbstractFileByPath v q of
        None \<Rightarrow> [] | Some (TFolder d) \<Rightarrow> [] | Some (TFile f) \<Rightarrow> [VaultRead f])"
  by (simp add: readNote_def split: option.splits abstract_file.splits)

lemma generateContent_fulfilled:
  assumes "OPENAI_API_KEY p \<noteq> []"
    and "map (\<lambda>q. fst (readNote (vault p) q)) paths = map Inr cs"
  shows "generateContent p sched paths =
           (Inr (fst (requestCompletion p (buildPrompt (map Some cs)))),
            concat (map (\<lambda>q. snd (readNote (vault p) q)) paths) @
            snd (requestCompletion p (buildPrompt (map Some cs))))"
proof -
  have "promiseAll (map fst (map (readNote (vault p)) paths)) sched = Inr (map Some cs)"
    using assms(2) by (simp add: comp_def promiseAll_fulfilled)
  then show ?thesis
    using assms(1) by (simp add: generateContent_def Let_def comp_def split: prod.splits)
qed

lemma generateContent_rejected:
  assumes "fst (generateContent p sched paths) = Inl e"
  shows "\<exists>q \<in> set paths. fst (readNote (vault p) q) = Inl e"
proof -
  from assms have "promiseAll (map fst (map (readNote (vault p)) paths)) sched = Inl e"
    by (auto simp: generateContent_def Let_def split: if_splits sum.splits prod.splits)
  then have "Inl e \<in> set (map fst (map (readNote (vault p)) paths))"
    by (rule promiseAll_rejected)
  then show ?thesis by auto
qed

lemma generateContent_rejects:
  assumes "OPENAI_API_KEY p \<noteq> []" and "q \<in> set paths"
    and "fst (readNote (vault p) q) = Inl e"
  shows "\<exists>e'. fst (generateContent p sched paths) = Inl e'"
proof -
  have "Inl e \<in> set (map fst (map (readNote (vault p)) paths))"
    using assms(2,3) by force
  then obtain e' where "promiseAll (map fst (map (readNote (vault p)) paths)) sched = Inl e'"
    using promiseAll_some_rejected by blast
  then show ?thesis
    using assms(1) by (auto simp: generateContent_def Let_def)
qed

lemma requestCompletion_events:
  "snd (requestCompletion p prompt) =
     [ChatCompletion \<lparr>organization = ORG_ID p, project = PROJECT_ID p, apiKey = OPENAI_API_KEY p\<rparr>
        \<lparr>model = ''gpt-4o-mini'', messages = [(''user'', prompt)]\<rparr>]"
  by (simp add: requestCompletion_def Let_def)

lemma messageContent_simps [simp]:
  "messageContent (Response []) = None"
  "messageContent (Response (Choice None # rest)) = None"
  "messageContent (Response (Choice (Some (Message x)) # rest)) = x"
  by (simp_all add: messageContent_def)

lemma requestCompletion_no_content:
  assumes "create p \<lparr>organization = ORG_ID p, project = PROJECT_ID p, apiKey = OPENAI_API_KEY p\<rparr>
             \<lparr>model = ''gpt-4o-mini'', messages = [(''user'', prompt)]\<rparr> = Inr r"
    and "messageContent r = None \<or> messageContent r = Some []"
  shows "fst (requestCompletion p prompt) = ''Error generating content. No response content.''"
  using assms by (auto simp: requestCompletion_def Let_def)

lemma slots_outcomes:
  "list_all2 (\<lambda>q c. case getAbstractFileByPath v q of
                       None \<Rightarrow> c = []
                     | Some (TFolder d) \<Rightarrow> c = []
                     | Some (TFile f) \<Rightarrow> read v f = Inr c) paths cs \<Longrightarrow>
   map (\<lambda>q. fst (readNote v q)) paths = map Inr cs"
  by (induction paths cs rule: list_all2_induct)
    (auto simp: readNote_def split: option.splits abstract_file.splits)

lemma generateContent_rejection_reason:
  assumes "OPENAI_API_KEY p \<noteq> []" and "q \<in> set paths"
    and "fst (readNote (vault p) q) = Inl e"
    and "\<And>q' e'. q' \<in> set paths \<Longrightarrow> fst (readNote (vault p) q') = Inl e' \<Longrightarrow> e' = e"
  shows "fst (generateContent p sched paths) = Inl e"
proof -
  obtain e' where e': "fst (generateContent p sched paths) = Inl e'"
    using generateContent_rejects [OF assms(1-3)] by blast
  then obtain q' where "q' \<in> set paths" "fst (readNote (vault p) q') = Inl e'"
    using generateContent_rejected by blast
  then have "e' = e" by (rule assms(4))
  with e' show ?thesis by simp
qed

text \<open>What a call of \<^verbatim>\<open>generateContent\<close> that returns can return, and what it returns
  when the provider throws.\<close>

lemma generateContent_result_kinds:
  assumes "fst (generateContent p sched paths) = Inr s"
  shows "s = ''API Key is not set. Please configure it in the .env file.'' \<or>
         s = ''Error generating content. Please check the console for details.'' \<or>
         s = ''Error generating content. No response content.'' \<or>
         (\<exists>c req r. create p c req = Inr r \<and> messageContent r = Some s \<and> s \<noteq> [])"
  using assms
  by (auto simp: generateContent_def requestCompletion_def Let_def
      split: if_splits sum.splits prod.splits option.splits)

lemma generateContent_provider_failure:
  assumes "OPENAI_API_KEY p \<noteq> []"
    and "map (\<lambda>q. fst (readNote (vault p) q)) paths = map Inr cs"
    and "create p \<lparr>organization = ORG_ID p, project = PROJECT_ID p, apiKey = OPENAI_API_KEY p\<rparr>
           \<lparr>model = ''gpt-4o-mini'', messages = [(''user'', buildPrompt (map Some cs))]\<rparr> = Inl e"
  shows "fst (generateContent p sched paths) =
           Inr ''Error generating content. Please check the console for details.''"
  using assms by (simp add: generateContent_fulfilled requestCompletion_def Let_def)

text \<open>Claim C2, at an input where it fails. The claim is that \<^verbatim>\<open>generateContent\<close> always
  returns a string. The reads of the batch are awaited outside the \<^verbatim>\<open>try\<close> block: with a
  credential configured and a path that resolves to a note whose read is rejected, the call
  is rejected with the error of that read, whatever the order in which the reads complete.\<close>

theorem generateContent_read_rejection:
  "fst (generateContent scenario sched [''/proj/note1.md'', ''/proj/locked.md'']) =
     Inl (ReadError ''/proj/locked.md'')"
  by (rule generateContent_rejection_reason [where q = "''/proj/locked.md''"])
    (auto simp: readNote_def)

text \<open>Claim C3. When the credential is empty, \<^verbatim>\<open>generateContent\<close> returns the sentinel
  that asks for the configuration, and issues nothing: no read of a note and no request to
  the provider. This holds for every list of paths.\<close>

theorem generateContent_missing_key:
  "OPENAI_API_KEY p = [] \<Longrightarrow>
   generateContent p sched paths =
     (Inr ''API Key is not set. Please configure it in the .env file.'', [])"
  by (simp add: generateContent_def)

text \<open>The plugin of the example with its credential removed.\<close>

theorem generateContent_missing_key_witness:
  "OPENAI_API_KEY (scenario\<lparr>OPENAI_API_KEY := []\<rparr>) = [] \<and>
   generateContent (scenario\<lparr>OPENAI_API_KEY := []\<rparr>) [1, 0] [''/proj/note1.md'', ''/proj/note2.md''] =
     (Inr ''API Key is not set. Please configure it in the .env file.'', [])"
  using generateContent_missing_key [of "scenario\<lparr>OPENAI_API_KEY := []\<rparr>" "[1, 0]"
      "[''/proj/note1.md'', ''/proj/note2.md'']"]
  by simp

text \<open>Claim C4. With a credential, when the reads of the batch succeed with the contents
  \<open>cs\<close> (taken in the order of the input paths), then for every order \<open>sched\<close> in which the
  reads complete the batch is fulfilled with \<open>cs\<close>, each content in the slot of its input
  position, and the one request made carries the prompt that is the fixed lead-in followed
  by \<open>cs\<close> joined with newlines in the order of the input; the reads are issued in the order
  of the input, before the request.\<close>

theorem generateContent_prompt_order:
  "OPENAI_API_KEY p \<noteq> [] \<Longrightarrow>
   map (\<lambda>q. fst (readNote (vault p) q)) paths = map Inr cs \<Longrightarrow>
   promiseAll (map (\<lambda>q. fst (readNote (vault p) q)) paths) sched = Inr (map Some cs) \<and>
   snd (generateContent p sched paths) =
     concat (map (\<lambda>q. snd (readNote (vault p) q)) paths) @
     [ChatCompletion \<lparr>organization = ORG_ID p, project = PROJECT_ID p, apiKey = OPENAI_API_KEY p\<rparr>
        \<lparr>model = ''gpt-4o-mini'',
         messages =
           [(''user'',
             ''Uncover relationships between the following notes:\<newline>'' @
             join (map Some cs) ''\<newline>'')]\<rparr>]"
  by (simp add: generateContent_fulfilled requestCompletion_events buildPrompt_def
      promiseAll_fulfilled)

text \<open>Three notes whose reads complete in the order third, first, second.\<close>

theorem generateContent_prompt_order_witness:
  "OPENAI_API_KEY scenario \<noteq> [] \<and>
   map (\<lambda>q. fst (readNote (vault scenario) q))
     [''/proj/note1.md'', ''/proj/note2.md'', ''/proj/current.md''] =
     map Inr [''alpha &uncover beta'', ''&uncover'', ''draft &uncover''] \<and>
   promiseAll
     (map (\<lambda>q. fst (readNote (vault scenario) q))
        [''/proj/note1.md'', ''/proj/note2.md'', ''/proj/current.md'']) [2, 0, 1] =
     Inr [Some ''alpha &uncover beta'', Some ''&uncover'', Some ''draft &uncover''] \<and>
   snd (generateContent scenario [2, 0, 1]
          [''/proj/note1.md'', ''/proj/note2.md'', ''/proj/current.md'']) =
     [VaultRead ''/proj/note1.md'', VaultRead ''/proj/note2.md'', VaultRead ''/proj/current.md'',
      ChatCompletion \<lparr>organization = ''org'', project = ''prj'', apiKey = ''sk-test''\<rparr>
        \<lparr>model = ''gpt-4o-mini'',
         messages =
           [(''user'',
             ''Uncover relationships between the following notes:\<newline>alpha &uncover beta\<newline>&uncover\<newline>draft &uncover'')]\<rparr>]"
  using generateContent_prompt_order [of scenario
      "[''/proj/note1.md'', ''/proj/note2.md'', ''/proj/current.md'']"
      "[''alpha &uncover beta'', ''&uncover'', ''draft &uncover'']" "[2, 0, 1]"]
  by (simp add: readNote_def)

text \<open>Claim C5. With a credential and a batch whose reads succeed, when the provider
  answers the request with a response whose first choice has no message content (no choice
  at all, no message, a \<^verbatim>\<open>null\<close> content) or an empty one, \<^verbatim>\<open>generateContent\<close> returns
  the sentinel for a response without content.\<close>

theorem generateContent_no_content:
  "OPENAI_API_KEY p \<noteq> [] \<Longrightarrow>
   map (\<lambda>q. fst (readNote (vault p) q)) paths = map Inr cs \<Longrightarrow>
   create p \<lparr>organization = ORG_ID p, project = PROJECT_ID p, apiKey = OPENAI_API_KEY p\<rparr>
     \<lparr>model = ''gpt-4o-mini'',
      messages =
        [(''user'',
          ''Uncover relationships between the following notes:\<newline>'' @
          join (map Some cs) ''\<newline>'')]\<rparr> = Inr r \<Longrightarrow>
   messageContent r = None \<or> messageContent r = Some [] \<Longrightarrow>
   fst (generateContent p sched paths) = Inr ''Error generating content. No response content.''"
  by (simp add: generateContent_fulfilled requestCompletion_no_content buildPrompt_def)

text \<open>A provider that returns no choice, and one whose first choice has a \<^verbatim>\<open>null\<close> content.\<close>

theorem generateContent_no_content_witness:
  "OPENAI_API_KEY (scenario\<lparr>create := \<lambda>c r. Inr (Response [])\<rparr>) \<noteq> [] \<and>
   map (\<lambda>q. fst (readNote (vault scenario) q)) [''/proj/note1.md''] =
     map Inr [''alpha &uncover beta''] \<and>
   messageContent (Response []) = None \<and>
   fst (generateContent (scenario\<lparr>create := \<lambda>c r. Inr (Response [])\<rparr>) [] [''/proj/note1.md'']) =
     Inr ''Error generating content. No response content.'' \<and>
   messageContent (Response [Choice (Some (Message None))]) = None \<and>
   fst (generateContent (scenario\<lparr>create := \<lambda>c r. Inr (Response [Choice (Some (Message None))])\<rparr>)
          [] [''/proj/note1.md'']) =
     Inr ''Error generating content. No response content.''"
  using generateContent_no_content [of "scenario\<lparr>create := \<lambda>c r. Inr (Response [])\<rparr>"
      "[''/proj/note1.md'']" "[''alpha &uncover beta'']" "Response []" "[]"]
    generateContent_no_content
      [of "scenario\<lparr>create := \<lambda>c r. Inr (Response [Choice (Some (Message None))])\<rparr>"
      "[''/proj/note1.md'']" "[''alpha &uncover beta'']" "Response [Choice (Some (Message None))]" "[]"]
  by (simp add: readNote_def)

text \<open>Claim C6. With a credential, let \<open>cs\<close> hold, for each input path in order, the
  empty string when the path does not resolve to a note (it resolves to nothing, or to a
  folder) and the content read when it does. Then \<^verbatim>\<open>generateContent\<close> returns a string,
  having read exactly the notes that resolve and sent the prompt built from \<open>cs\<close>: a path
  that does not resolve contributes the empty string and the rest of the batch proceeds.
  And whenever the call fails, the error is that of the read of a path that did resolve to a
  note: a path that does not resolve never makes the call fail.\<close>

theorem generateContent_unresolved_paths:
  "(OPENAI_API_KEY p \<noteq> [] \<longrightarrow>
    list_all2 (\<lambda>q c. case getAbstractFileByPath (vault p) q of
                        None \<Rightarrow> c = []
                      | Some (TFolder d) \<Rightarrow> c = []
                      | Some (TFile f) \<Rightarrow> read (vault p) f = Inr c) paths cs \<longrightarrow>
    (\<exists>answer.
       generateContent p sched paths =
         (Inr answer,
          concat (map (\<lambda>q. case getAbstractFileByPath (vault p) q of
                              None \<Rightarrow> []
                            | Some (TFolder d) \<Rightarrow> []
                            | Some (TFile f) \<Rightarrow> [VaultRead f]) paths) @
          [ChatCompletion
             \<lparr>organization = ORG_ID p, project = PROJECT_ID p, apiKey = OPENAI_API_KEY p\<rparr>
             \<lparr>model = ''gpt-4o-mini'',
              messages =
                [(''user'',
                  ''Uncover relationships between the following notes:\<newline>'' @
                  join (map Some cs) ''\<newline>'')]\<rparr>]))) \<and>
   (\<forall>e. fst (generateContent p sched paths) = Inl e \<longrightarrow>
        (\<exists>q \<in> set paths. \<exists>f. getAbstractFileByPath (vault p) q = Some (TFile f) \<and>
                               read (vault p) f = Inl e))"
proof (intro conjI impI allI)
  assume key: "OPENAI_API_KEY p \<noteq> []"
    and slots: "list_all2 (\<lambda>q c. case getAbstractFileByPath (vault p) q of
                        None \<Rightarrow> c = []
                      | Some (TFolder d) \<Rightarrow> c = []
                      | Some (TFile f) \<Rightarrow> read (vault p) f = Inr c) paths cs"
  have "map (\<lambda>q. fst (readNote (vault p) q)) paths = map Inr cs"
    using slots by (rule slots_outcomes)
  with key show "\<exists>answer.
       generateContent p sched paths =
         (Inr answer,
          concat (map (\<lambda>q. case getAbstractFileByPath (vault p) q of
                              None \<Rightarrow> []
                            | Some (TFolder d) \<Rightarrow> []
                            | Some (TFile f) \<Rightarrow> [VaultRead f]) paths) @
          [ChatCompletion
             \<lparr>organization = ORG_ID p, project = PROJECT_ID p, apiKey = OPENAI_API_KEY p\<rparr>
             \<lparr>model = ''gpt-4o-mini'',
              messages =
                [(''user'',
                  ''Uncover relationships between the following notes:\<newline>'' @
                  join (map Some cs) ''\<newline>'')]\<rparr>])"
    by (simp add: generateContent_fulfilled requestCompletion_events readNote_events
        buildPrompt_def)
next
  fix e
  assume "fst (generateContent p sched paths) = Inl e"
  then obtain q where "q \<in> set paths" "fst (readNote (vault p) q) = Inl e"
    using generateContent_rejected by blast
  then show "\<exists>q \<in> set paths. \<exists>f. getAbstractFileByPath (vault p) q = Some (TFile f) \<and>
                               read (vault p) f = Inl e"
    by (auto simp: readNote_def split: option.splits abstract_file.splits)
qed

text \<open>A batch with a deleted note and a folder among its paths, and a failing batch.\<close>

theorem generateContent_unresolved_paths_witness:
  "OPENAI_API_KEY scenario \<noteq> [] \<and>
   getAbstractFileByPath (vault scenario) ''/proj/gone.md'' = None \<and>
   getAbstractFileByPath (vault scenario) ''/proj'' = Some (TFolder ''/proj'') \<and>
   (\<exists>answer.
      generateContent scenario [3, 1]
        [''/proj/note1.md'', ''/proj/gone.md'', ''/proj'', ''/proj/note2.md''] =
        (Inr answer,
         [VaultRead ''/proj/note1.md'', VaultRead ''/proj/note2.md'',
          ChatCompletion \<lparr>organization = ''org'', project = ''prj'', apiKey = ''sk-test''\<rparr>
            \<lparr>model = ''gpt-4o-mini'',
             messages =
               [(''user'',
                 ''Uncover relationships between the following notes:\<newline>alpha &uncover beta\<newline>\<newline>\<newline>&uncover'')]\<rparr>])) \<and>
   fst (generateContent scenario [] [''/proj/gone.md'', ''/proj/locked.md'']) =
     Inl (ReadError ''/proj/locked.md'') \<and>
   (\<exists>q \<in> set [''/proj/gone.md'', ''/proj/locked.md''].
      \<exists>f. getAbstractFileByPath (vault scenario) q = Some (TFile f) \<and>
          read (vault scenario) f = Inl (ReadError ''/proj/locked.md''))"
proof -
  have run: "fst (generateContent scenario [] [''/proj/gone.md'', ''/proj/locked.md'']) =
      Inl (ReadError ''/proj/locked.md'')"
    by (rule generateContent_rejection_reason [where q = "''/proj/locked.md''"])
      (auto simp: readNote_def)
  show ?thesis
    using run
      generateContent_unresolved_paths [of scenario
        "[''/proj/note1.md'', ''/proj/gone.md'', ''/proj'', ''/proj/note2.md'']"
        "[''alpha &uncover beta'', [], [], ''&uncover'']" "[3, 1]"]
      generateContent_unresolved_paths [of scenario
        "[''/proj/gone.md'', ''/proj/locked.md'']" "[]" "[]"]
    by simp
qed

subsection \<open>Discovery: the result and the reads of \<^verbatim>\<open>getNotesWithTag\<close>\<close>

lemma substring_from_0: "substring s 0 e = take (nat e) s"
  by (auto simp: substring_def Let_def min_def max_def)

lemma startsWith_folderOf: "startsWith cur (folderOf cur)"
  by (simp add: startsWith_def folderOf_def substring_from_0 min_def)

lemma folderOf_scenario [simp]:
  "folderOf ''/proj/current.md'' = ''/proj''"
  "folderOf ''/misc/today.md'' = ''/misc''"
  by (simp_all add: folderOf_def substring_from_0 Let_def)

lemma matches_iff:
  "matches v tag F f \<longleftrightarrow> prefix F f \<and> (\<exists>c. read v f = Inr c \<and> sublist tag c)"
  by (auto simp: matches_def startsWith_prefix includes_sublist split: sum.splits)

lemma forFiles_events:
  "snd (forFiles v tag F files acc tr) = tr @ map VaultRead (filter (prefix F) files)"
  by (induction files arbitrary: acc tr)
    (simp_all add: tryCatch_eq startsWith_prefix)

lemma getNotesWithTag_eq:
  "getNotesWithTag p tag F =
     (Inr (filter (matches (vault p) tag F) (getFiles (vault p))),
      map VaultRead (filter (prefix F) (getFiles (vault p))))"
  by (simp add: getNotesWithTag_def prod_eq_iff forFiles_result forFiles_events)

lemma sublist_scenario [simp]:
  "sublist ''&uncover'' ''alpha &uncover beta''"
  "sublist ''&uncover'' ''&uncover''"
  "sublist ''&uncover'' ''draft &uncover''"
  "\<not> sublist ''&uncover'' ''plain text''"
  by (simp_all add: includes_sublist [symmetric] startsWith_def)

lemma scenario_discovery:
  "fst (getNotesWithTag scenario ''&uncover'' ''/proj'') =
     Inr [''/proj/note1.md'', ''/proj/note2.md'', ''/proj/current.md'']"
  "fst (getNotesWithTag scenario ''&uncover'' ''/misc'') = Inr []"
  by (simp_all add: getNotesWithTag_eq matches_iff)

text \<open>Claim C1. For every tag and folder path, \<^verbatim>\<open>getNotesWithTag\<close> of \<^verbatim>\<open>main.ts\<close>
  returns exactly the paths of the vault's notes whose path has the folder path as a prefix
  (compared character by character) and whose content, as read during the scan, contains the
  tag as a substring, in the order in which the vault enumerates them; every path returned
  starts with the folder path.\<close>

theorem getNotesWithTag_exact:
  "\<exists>ns. fst (getNotesWithTag p tag F) = Inr ns \<and>
        ns = filter (\<lambda>f. prefix F f \<and> (\<exists>c. read (vault p) f = Inr c \<and> sublist tag c))
               (getFiles (vault p)) \<and>
        list_all (prefix F) ns"
  by (simp add: getNotesWithTag_eq matches_iff [abs_def] list_all_iff)

text \<open>The scan of \<^verbatim>\<open>/proj\<close> in the example: the note of the other folder, the unreadable
  note and the untagged note are left out, and the order is that of the vault.\<close>

theorem getNotesWithTag_exact_witness:
  "fst (getNotesWithTag scenario ''&uncover'' ''/proj'') =
     Inr [''/proj/note1.md'', ''/proj/note2.md'', ''/proj/current.md'']"
  using getNotesWithTag_exact [of scenario "''&uncover''" "''/proj''"]
  by simp

text \<open>Claim C7. For every vault, tag and folder path, \<^verbatim>\<open>getNotesWithTag\<close> returns a list
  and raises nothing; every note under the folder path is read, whatever the outcome of the
  reads before it; a note whose read fails is not in the result, and every readable note
  under the folder path whose content contains the tag is.\<close>

theorem getNotesWithTag_skips_unreadable:
  "\<exists>ns. getNotesWithTag p tag F =
          (Inr ns, map VaultRead (filter (prefix F) (getFiles (vault p)))) \<and>
        (\<forall>f e. read (vault p) f = Inl e \<longrightarrow> f \<notin> set ns) \<and>
        (\<forall>f c. f \<in> set (getFiles (vault p)) \<longrightarrow> prefix F f \<longrightarrow>
               read (vault p) f = Inr c \<longrightarrow> sublist tag c \<longrightarrow> f \<in> set ns)"
  by (auto simp: getNotesWithTag_eq matches_iff)

text \<open>The scan of \<^verbatim>\<open>/proj\<close> in the example goes past the unreadable note to the last one.\<close>

theorem getNotesWithTag_skips_unreadable_witness:
  "read (vault scenario) ''/proj/locked.md'' = Inl (ReadError ''/proj/locked.md'') \<and>
   ''/proj/current.md'' \<in> set (getFiles (vault scenario)) \<and>
   prefix ''/proj'' ''/proj/current.md'' \<and>
   read (vault scenario) ''/proj/current.md'' = Inr ''draft &uncover'' \<and>
   sublist ''&uncover'' ''draft &uncover'' \<and>
   (\<exists>ns. getNotesWithTag scenario ''&uncover'' ''/proj'' =
           (Inr ns,
            [VaultRead ''/proj/note1.md'', VaultRead ''/proj/note2.md'',
             VaultRead ''/proj/locked.md'', VaultRead ''/proj/current.md'']) \<and>
         ''/proj/locked.md'' \<notin> set ns \<and> ''/proj/current.md'' \<in> set ns)"
proof -
  obtain ns where run: "getNotesWithTag scenario ''&uncover'' ''/proj'' =
          (Inr ns, map VaultRead (filter (prefix ''/proj'') (getFiles (vault scenario))))"
    and skipped: "\<forall>f e. read (vault scenario) f = Inl e \<longrightarrow> f \<notin> set ns"
    and kept: "\<forall>f c. f \<in> set (getFiles (vault scenario)) \<longrightarrow> prefix ''/proj'' f \<longrightarrow>
               read (vault scenario) f = Inr c \<longrightarrow> sublist ''&uncover'' c \<longrightarrow> f \<in> set ns"
    using getNotesWithTag_skips_unreadable [of scenario "''&uncover''" "''/proj''"] by blast
  have "''/proj/locked.md'' \<notin> set ns"
    using skipped [rule_format, of "''/proj/locked.md''"] by simp
  moreover have "''/proj/current.md'' \<in> set ns"
    using kept [rule_format, of "''/proj/current.md''" "''draft &uncover''"] by simp
  ultimately show ?thesis using run by simp
qed

subsection \<open>The command\<close>

lemma generateContent_no_insert:
  "ReplaceSelection s \<notin> set (snd (generateContent p sched paths))"
  by (auto simp: generateContent_def Let_def requestCompletion_def readNote_def
      split: sum.splits prod.splits option.splits abstract_file.splits)

lemma editorCallback_none_found:
  assumes "cur \<noteq> []" and "fst (getNotesWithTag p ''&uncover'' (folderOf cur)) = Inr []"
  shows "editorCallback p sched (Some cur) =
           (Inr (),
            map VaultRead (filter (prefix (folderOf cur)) (getFiles (vault p))) @
            [ReplaceSelection ''No related notes with the &uncover tag found.''])"
  using assms by (simp add: editorCallback_def getNotesWithTag_eq)

lemma editorCallback_some_found:
  assumes "cur \<noteq> []" and "fst (getNotesWithTag p ''&uncover'' (folderOf cur)) = Inr ns"
    and "ns \<noteq> []"
  shows "editorCallback p sched (Some cur) =
           (case generateContent p sched ns of
              (Inl e, tr') \<Rightarrow>
                (Inl e, map VaultRead (filter (prefix (folderOf cur)) (getFiles (vault p))) @ tr')
            | (Inr relationships, tr') \<Rightarrow>
                (Inr (),
                 map VaultRead (filter (prefix (folderOf cur)) (getFiles (vault p))) @ tr' @
                 [ReplaceSelection
                    (''\<newline>## Relationships Uncovered:\<newline>'' @ relationships)]))"
  using assms by (simp add: editorCallback_def getNotesWithTag_eq)

lemma readable_contents:
  "\<forall>f \<in> set ns. \<exists>c. read v f = Inr c \<Longrightarrow> \<exists>cs. list_all2 (\<lambda>f c. read v f = Inr c) ns cs"
proof (induction ns)
  case Nil
  then show ?case by simp
next
  case (Cons n ns)
  then obtain c cs where "read v n = Inr c" "list_all2 (\<lambda>f c. read v f = Inr c) ns cs"
    by auto
  then have "list_all2 (\<lambda>f c. read v f = Inr c) (n # ns) (c # cs)"
    by simp
  then show ?case by blast
qed

lemma resolved_batch:
  assumes "list_all2 (\<lambda>f c. read v f = Inr c) ns cs"
    and "\<forall>f \<in> set ns. getAbstractFileByPath v f = Some (TFile f)"
  shows "map (\<lambda>q. fst (readNote v q)) ns = map Inr cs"
    and "concat (map (\<lambda>q. snd (readNote v q)) ns) = map VaultRead ns"
  using assms by (induction ns cs rule: list_all2_induct) (simp_all add: readNote_def)

text \<open>Claim C8. \<^verbatim>\<open>getNotesWithTag\<close> returns the empty list, and no error, exactly when no
  note of the vault under the folder path is read with a content that contains the tag; an
  empty vault is such a case. For a current note with a path, when the list is empty the
  command has read the notes under the folder, inserted the fixed message that no related
  note was found, and done nothing else: no call of \<^verbatim>\<open>generateContent\<close>, no request to
  the provider. When the list is not empty the command does not insert that message.\<close>

theorem no_related_notes:
  "(fst (getNotesWithTag p tag F) = Inr [] \<longleftrightarrow>
      \<not> (\<exists>f \<in> set (getFiles (vault p)).
            prefix F f \<and> (\<exists>c. read (vault p) f = Inr c \<and> sublist tag c))) \<and>
   (cur \<noteq> [] \<longrightarrow>
      (fst (getNotesWithTag p ''&uncover'' (folderOf cur)) = Inr [] \<longrightarrow>
         editorCallback p sched (Some cur) =
           (Inr (),
            map VaultRead (filter (prefix (folderOf cur)) (getFiles (vault p))) @
            [ReplaceSelection ''No related notes with the &uncover tag found.''])) \<and>
      (fst (getNotesWithTag p ''&uncover'' (folderOf cur)) \<noteq> Inr [] \<longrightarrow>
         ReplaceSelection ''No related notes with the &uncover tag found.''
           \<notin> set (snd (editorCallback p sched (Some cur)))))"
proof (intro conjI impI)
  show "fst (getNotesWithTag p tag F) = Inr [] \<longleftrightarrow>
      \<not> (\<exists>f \<in> set (getFiles (vault p)).
            prefix F f \<and> (\<exists>c. read (vault p) f = Inr c \<and> sublist tag c))"
    by (auto simp: getNotesWithTag_eq matches_iff filter_empty_conv)
next
  assume "cur \<noteq> []" "fst (getNotesWithTag p ''&uncover'' (folderOf cur)) = Inr []"
  then show "editorCallback p sched (Some cur) =
           (Inr (),
            map VaultRead (filter (prefix (folderOf cur)) (getFiles (vault p))) @
            [ReplaceSelection ''No related notes with the &uncover tag found.''])"
    by (rule editorCallback_none_found)
next
  assume cur: "cur \<noteq> []"
    and found: "fst (getNotesWithTag p ''&uncover'' (folderOf cur)) \<noteq> Inr []"
  obtain ns where ns: "fst (getNotesWithTag p ''&uncover'' (folderOf cur)) = Inr ns"
    by (simp add: getNotesWithTag_eq)
  with found have "ns \<noteq> []" by auto
  have "ReplaceSelection ''No related notes with the &uncover tag found.''
          \<notin> set (snd (generateContent p sched ns))"
    by (rule generateContent_no_insert)
  then show "ReplaceSelection ''No related notes with the &uncover tag found.''
           \<notin> set (snd (editorCallback p sched (Some cur)))"
    by (auto simp: editorCallback_some_found [OF cur ns \<open>ns \<noteq> []\<close>]
        split: prod.splits sum.splits)
qed

text \<open>An empty vault; a folder whose only note is untagged; and the folder \<^verbatim>\<open>/proj\<close>, where notes
  are found.\<close>

theorem no_related_notes_witness:
  "fst (getNotesWithTag (scenario\<lparr>vault := scenarioVault\<lparr>getFiles := []\<rparr>\<rparr>) ''&uncover'' ''/proj'') =
     Inr [] \<and>
   ''/misc/today.md'' \<noteq> [] \<and>
   fst (getNotesWithTag scenario ''&uncover'' (folderOf ''/misc/today.md'')) = Inr [] \<and>
   editorCallback scenario [] (Some ''/misc/today.md'') =
     (Inr (),
      [VaultRead ''/misc/plain.md'',
       ReplaceSelection ''No related notes with the &uncover tag found.'']) \<and>
   ''/proj/current.md'' \<noteq> [] \<and>
   fst (getNotesWithTag scenario ''&uncover'' (folderOf ''/proj/current.md'')) \<noteq> Inr [] \<and>
   ReplaceSelection ''No related notes with the &uncover tag found.''
     \<notin> set (snd (editorCallback scenario [] (Some ''/proj/current.md'')))"
  using no_related_notes [of "scenario\<lparr>vault := scenarioVault\<lparr>getFiles := []\<rparr>\<rparr>"
      "''&uncover''" "''/proj''" "''/misc/today.md''" "[]"]
    no_related_notes [of scenario "''&uncover''" "''/proj''" "''/misc/today.md''" "[]"]
    no_related_notes [of scenario "''&uncover''" "''/proj''" "''/proj/current.md''" "[]"]
  by (simp add: scenario_discovery)

text \<open>Claim C10. The current note is not excluded from the discovery. When it is one of the
  vault's notes and its content contains the tag, \<^verbatim>\<open>getNotesWithTag\<close>, called with the
  folder derived from its path, returns its path among the others (its path always starts
  with the folder derived from it, lemma \<open>startsWith_folderOf\<close>). When moreover a credential is
  configured and the paths found resolve to their notes, the command reads every note found
  a second time, the current note among them, and the prompt it sends holds the content of
  the current note at the position of its path in the list.\<close>

theorem current_note_included:
  assumes "cur \<in> set (getFiles (vault p))"
    and "read (vault p) cur = Inr c"
    and "sublist ''&uncover'' c"
  shows "\<exists>ns. fst (getNotesWithTag p ''&uncover'' (folderOf cur)) = Inr ns \<and> cur \<in> set ns \<and>
           (cur \<noteq> [] \<longrightarrow> OPENAI_API_KEY p \<noteq> [] \<longrightarrow>
            (\<forall>f \<in> set ns. getAbstractFileByPath (vault p) f = Some (TFile f)) \<longrightarrow>
            (\<exists>cs answer.
               list_all2 (\<lambda>f c'. read (vault p) f = Inr c') ns cs \<and>
               (\<exists>i < length ns. ns ! i = cur \<and> cs ! i = c) \<and>
               editorCallback p sched (Some cur) =
                 (Inr (),
                  map VaultRead (filter (prefix (folderOf cur)) (getFiles (vault p))) @
                  map VaultRead ns @
                  [ChatCompletion
                     \<lparr>organization = ORG_ID p, project = PROJECT_ID p, apiKey = OPENAI_API_KEY p\<rparr>
                     \<lparr>model = ''gpt-4o-mini'',
                      messages =
                        [(''user'',
                          ''Uncover relationships between the following notes:\<newline>'' @
                          join (map Some cs) ''\<newline>'')]\<rparr>,
                   ReplaceSelection
                     (''\<newline>## Relationships Uncovered:\<newline>'' @ answer)])))"
proof -
  define ns where "ns = filter (matches (vault p) ''&uncover'' (folderOf cur)) (getFiles (vault p))"
  have located: "fst (getNotesWithTag p ''&uncover'' (folderOf cur)) = Inr ns"
    by (simp add: getNotesWithTag_eq ns_def)
  have "matches (vault p) ''&uncover'' (folderOf cur) cur"
    using assms(2,3) startsWith_folderOf [of cur]
    by (simp add: matches_iff startsWith_prefix)
  with assms(1) have member: "cur \<in> set ns"
    by (simp add: ns_def)
  have synthesis: "\<exists>cs answer.
               list_all2 (\<lambda>f c'. read (vault p) f = Inr c') ns cs \<and>
               (\<exists>i < length ns. ns ! i = cur \<and> cs ! i = c) \<and>
               editorCallback p sched (Some cur) =
                 (Inr (),
                  map VaultRead (filter (prefix (folderOf cur)) (getFiles (vault p))) @
                  map VaultRead ns @
                  [ChatCompletion
                     \<lparr>organization = ORG_ID p, project = PROJECT_ID p, apiKey = OPENAI_API_KEY p\<rparr>
                     \<lparr>model = ''gpt-4o-mini'',
                      messages =
                        [(''user'',
                          ''Uncover relationships between the following notes:\<newline>'' @
                          join (map Some cs) ''\<newline>'')]\<rparr>,
                   ReplaceSelection
                     (''\<newline>## Relationships Uncovered:\<newline>'' @ answer)])"
    if nonempty: "cur \<noteq> []" and key: "OPENAI_API_KEY p \<noteq> []"
      and resolved: "\<forall>f \<in> set ns. getAbstractFileByPath (vault p) f = Some (TFile f)"
  proof -
    have "\<forall>f \<in> set ns. \<exists>c. read (vault p) f = Inr c"
      by (auto simp: ns_def matches_iff)
    then obtain cs where cs: "list_all2 (\<lambda>f c. read (vault p) f = Inr c) ns cs"
      using readable_contents by blast
    from member obtain i where i: "i < length ns" "ns ! i = cur"
      by (auto simp: in_set_conv_nth)
    with cs have "read (vault p) cur = Inr (cs ! i)"
      by (auto dest: list_all2_nthD)
    with assms(2) have slot: "cs ! i = c" by simp
    from member have "ns \<noteq> []" by auto
    have "generateContent p sched ns =
           (Inr (fst (requestCompletion p (buildPrompt (map Some cs)))),
            map VaultRead ns @ snd (requestCompletion p (buildPrompt (map Some cs))))"
      using generateContent_fulfilled [OF key resolved_batch(1) [OF cs resolved]]
      by (simp add: resolved_batch(2) [OF cs resolved])
    then have "editorCallback p sched (Some cur) =
                 (Inr (),
                  map VaultRead (filter (prefix (folderOf cur)) (getFiles (vault p))) @
                  map VaultRead ns @
                  [ChatCompletion
                     \<lparr>organization = ORG_ID p, project = PROJECT_ID p, apiKey = OPENAI_API_KEY p\<rparr>
                     \<lparr>model = ''gpt-4o-mini'',
                      messages =
                        [(''user'',
                          ''Uncover relationships between the following notes:\<newline>'' @
                          join (map Some cs) ''\<newline>'')]\<rparr>,
                   ReplaceSelection
                     (''\<newline>## Relationships Uncovered:\<newline>'' @
                      fst (requestCompletion p (buildPrompt (map Some cs))))])"
      by (simp add: editorCallback_some_found [OF nonempty located \<open>ns \<noteq> []\<close>]
          requestCompletion_events buildPrompt_def)
    with cs i slot show ?thesis by blast
  qed
  from located member synthesis show ?thesis by blast
qed

text \<open>The command run on the current note of the example, itself tagged.\<close>

theorem current_note_included_witness:
  "''/proj/current.md'' \<in> set (getFiles (vault scenario)) \<and>
   read (vault scenario) ''/proj/current.md'' = Inr ''draft &uncover'' \<and>
   sublist ''&uncover'' ''draft &uncover'' \<and>
   ''/proj/current.md'' \<noteq> [] \<and>
   OPENAI_API_KEY scenario \<noteq> [] \<and>
   list_all (\<lambda>f. getAbstractFileByPath (vault scenario) f = Some (TFile f))
     [''/proj/note1.md'', ''/proj/note2.md'', ''/proj/current.md''] \<and>
   fst (getNotesWithTag scenario ''&uncover'' (folderOf ''/proj/current.md'')) =
     Inr [''/proj/note1.md'', ''/proj/note2.md'', ''/proj/current.md''] \<and>
   (\<exists>answer.
      editorCallback scenario [2, 1] (Some ''/proj/current.md'') =
        (Inr (),
         [VaultRead ''/proj/note1.md'', VaultRead ''/proj/note2.md'',
          VaultRead ''/proj/locked.md'', VaultRead ''/proj/current.md'',
          VaultRead ''/proj/note1.md'', VaultRead ''/proj/note2.md'',
          VaultRead ''/proj/current.md'',
          ChatCompletion \<lparr>organization = ''org'', project = ''prj'', apiKey = ''sk-test''\<rparr>
            \<lparr>model = ''gpt-4o-mini'',
             messages =
               [(''user'',
                 ''Uncover relationships between the following notes:\<newline>alpha &uncover beta\<newline>&uncover\<newline>draft &uncover'')]\<rparr>,
          ReplaceSelection (''\<newline>## Relationships Uncovered:\<newline>'' @ answer)]))"
  using current_note_included [of "''/proj/current.md''" scenario "''draft &uncover''" "[2, 1]"]
  by (auto simp: scenario_discovery list_all2_Cons1)

subsection \<open>The variant of \<^verbatim>\<open>src/unnamed/part_001\<close>\<close>

lemma forEachFile_eq:
  "forEachFile F files ns pending tr =
     (ns, pending @ filter (prefix F) files, tr @ map VaultRead (filter (prefix F) files))"
  by (induction files arbitrary: pending tr) (simp_all add: startsWith_prefix)

lemma getNotesWithTag_part_001_eq:
  "getNotesWithTag_part_001 p tag F =
     ([], filter (prefix F) (getFiles (vault p)),
      map VaultRead (filter (prefix F) (getFiles (vault p))))"
  by (simp add: getNotesWithTag_part_001_def forEachFile_eq)

lemma runContinuations_set:
  "set (runContinuations v tag pending order ns) =
     set ns \<union> {pending ! i | i. i \<in> set order \<and> i < length pending \<and>
                  (\<exists>c. read v (pending ! i) = Inr c \<and> sublist tag c)}"
proof (induction order arbitrary: ns)
  case Nil
  then show ?case by simp
next
  case (Cons i order)
  show ?case
  proof (cases "i < length pending")
    case False
    then show ?thesis using Cons.IH [of ns] by auto
  next
    case True
    show ?thesis
    proof (cases "read v (pending ! i)")
      case (Inl e)
      then show ?thesis using True Cons.IH [of ns] by auto
    next
      case (Inr c)
      show ?thesis
      proof (cases "sublist tag c")
        case True
        then show ?thesis
          using \<open>i < length pending\<close> Inr Cons.IH [of "ns @ [pending ! i]"]
          by (auto simp: includes_sublist)
      next
        case False
        then show ?thesis
          using \<open>i < length pending\<close> Inr Cons.IH [of ns]
          by (auto simp: includes_sublist)
      qed
    qed
  qed
qed

lemma arrayAfterReads_set:
  "set (arrayAfterReads v tag pending sched ns) =
     set ns \<union> {f \<in> set pending. \<exists>c. read v f = Inr c \<and> sublist tag c}"
  unfolding arrayAfterReads_def runContinuations_set completionOrder_set
  by (auto simp: in_set_conv_nth)

text \<open>The unguarded reading of the response in the variant: with no choice the dereference
  throws inside the \<^verbatim>\<open>try\<close> block, and a \<^verbatim>\<open>null\<close> content is returned.\<close>

lemma requestCompletion_part_001_no_choice:
  assumes "create p \<lparr>organization = ORG_ID p, project = PROJECT_ID p, apiKey = OPENAI_API_KEY p\<rparr>
             \<lparr>model = ''gpt-4o-mini'', messages = [(''user'', prompt)]\<rparr> = Inr (Response [])"
  shows "fst (requestCompletion_part_001 p prompt) =
           Some ''Error generating content. Please check the console for details.''"
  using assms by (simp add: requestCompletion_part_001_def Let_def)

lemma requestCompletion_part_001_null_content:
  assumes "create p \<lparr>organization = ORG_ID p, project = PROJECT_ID p, apiKey = OPENAI_API_KEY p\<rparr>
             \<lparr>model = ''gpt-4o-mini'', messages = [(''user'', prompt)]\<rparr> =
           Inr (Response (Choice (Some (Message None)) # rest))"
  shows "fst (requestCompletion_part_001 p prompt) = None"
  using assms by (simp add: requestCompletion_part_001_def Let_def)

text \<open>Claim C9. In the variant of \<^verbatim>\<open>src/unnamed/part_001\<close>, for every vault, tag and
  folder path the array that \<^verbatim>\<open>getNotesWithTag\<close> returns is empty when it is returned, so
  the command, for every current note, reads the notes under the folder and inserts the
  message that no related note was found. The paths of the matching notes are pushed
  afterwards, as the reads complete (in any order \<open>later\<close>): the array then holds the notes
  under the folder path whose content contains the tag.\<close>

theorem getNotesWithTag_part_001_returns_empty:
  "fst (getNotesWithTag_part_001 p tag F) = [] \<and>
   editorCallback_part_001 p sched (Some cur) =
     (Inr (),
      map VaultRead (filter (prefix (folderOf cur)) (getFiles (vault p))) @
      [ReplaceSelection ''No related notes with the #uncover tag found.'']) \<and>
   (\<exists>pending tr.
      getNotesWithTag_part_001 p tag F = ([], pending, tr) \<and>
      set (arrayAfterReads (vault p) tag pending later []) =
        {f \<in> set (getFiles (vault p)).
           prefix F f \<and> (\<exists>c. read (vault p) f = Inr c \<and> sublist tag c)})"
  by (auto simp: getNotesWithTag_part_001_eq editorCallback_part_001_def arrayAfterReads_set)

text \<open>On the example, where \<^verbatim>\<open>getNotesWithTag\<close> of \<^verbatim>\<open>main.ts\<close> finds three notes.\<close>

theorem getNotesWithTag_part_001_returns_empty_witness:
  "fst (getNotesWithTag_part_001 scenario ''&uncover'' ''/proj'') = [] \<and>
   fst (getNotesWithTag scenario ''&uncover'' ''/proj'') =
     Inr [''/proj/note1.md'', ''/proj/note2.md'', ''/proj/current.md''] \<and>
   editorCallback_part_001 scenario [] (Some ''/proj/current.md'') =
     (Inr (),
      [VaultRead ''/proj/note1.md'', VaultRead ''/proj/note2.md'',
       VaultRead ''/proj/locked.md'', VaultRead ''/proj/current.md'',
       ReplaceSelection ''No related notes with the #uncover tag found.''])"
  using getNotesWithTag_part_001_returns_empty
    [of scenario "''&uncover''" "''/proj''" "[]" "''/proj/current.md''" "[]"]
  by (simp add: scenario_discovery)

end
